theory Spec2Isabelle
  imports Main "HOL-Library.Word"
begin

section \<open>The page-range parser of \<^verbatim>\<open>src/util/PageRange.cpp\<close>\<close>

text \<open>
  \<^verbatim>\<open>PageRange::parse(const std::string& s, size_t pageCount)\<close> splits \<open>s\<close> at the
  separators \<^verbatim>\<open>,;:\<close>, matches every piece against five regular expressions, reads the
  numbers with \<^verbatim>\<open>std::from_chars\<close>, validates the two bounds against \<open>pageCount\<close> and
  returns the 0-based entries, or throws.

  Conventions of the embedding:
  \<^item> \<^verbatim>\<open>size_t\<close> is a 64-bit word (unsigned comparison, wrapping decrement);
  \<^item> \<^verbatim>\<open>std::string\<close> is \<open>string\<close>, a list of bytes;
  \<^item> a thrown exception is a value \<open>Inl\<close> of type \<open>exn\<close>, carrying the dynamic class of
    the exception object and the message id handed to gettext;
  \<^item> the character classes \<^verbatim>\<open>\s\<close> and \<^verbatim>\<open>\d\<close> are those of the classic locale.
\<close>

subsection \<open>Data\<close>

type_synonym size_t = "64 word"

text \<open>\<^verbatim>\<open>struct PageRangeEntry { size_t first; size_t last; }\<close>. The second field is
  written \<open>last'\<close>, since \<open>last\<close> is the list function.\<close>

record PageRangeEntry =
  first :: size_t
  last' :: size_t

text \<open>The two exception classes the function throws, with their messages.
  In C++ \<^verbatim>\<open>std::invalid_argument\<close> derives from \<^verbatim>\<open>std::logic_error\<close>; the
  constructor here is the dynamic class of the thrown object.\<close>

datatype exn = logic_error string | invalid_argument string

definition InvalidConfiguration :: exn where
  "InvalidConfiguration = logic_error ''PageRange::parse(): pageCount is zero.''"

definition InvalidRange :: exn where
  "InvalidRange = invalid_argument ''PageRange::parse(): invalid page range.''"

definition OutOfRange :: exn where
  "OutOfRange =
     invalid_argument ''PageRange::parse(): given page number is larger than maximum count.''"

definition InvalidOrder :: exn where
  "InvalidOrder =
     invalid_argument ''PageRange::parse(): interval bounds must be in increasing order.''"

definition InvalidPageNumber :: exn where
  "InvalidPageNumber = invalid_argument ''PageRange::parse(): page numbers start with 1''"

subsection \<open>Character classes\<close>

text \<open>\<^verbatim>\<open>[,;:]\<close>\<close>

definition is_separator :: "char \<Rightarrow> bool" where
  "is_separator c = (c = CHR '','' \<or> c = CHR '';'' \<or> c = CHR '':'')"

text \<open>\<^verbatim>\<open>\s\<close>: space, and the five control characters from tab (9) to carriage return (13).\<close>

definition is_space :: "char \<Rightarrow> bool" where
  "is_space c = (c = CHR '' '' \<or> (9 \<le> (of_char c :: nat) \<and> (of_char c :: nat) \<le> 13))"

text \<open>\<^verbatim>\<open>\d\<close>: \<^verbatim>\<open>0\<close> to \<^verbatim>\<open>9\<close>.\<close>

definition is_digit :: "char \<Rightarrow> bool" where
  "is_digit c = (48 \<le> (of_char c :: nat) \<and> (of_char c :: nat) \<le> 57)"

definition is_hyphen :: "char \<Rightarrow> bool" where
  "is_hyphen c = (c = CHR ''-'')"

subsection \<open>The tokenizer\<close>

text \<open>
  \<^verbatim>\<open>std::sregex_token_iterator(s.cbegin(), s.cend(), separators, -1)\<close> walks over the
  matches of the separator and yields the text before each one. When no match is left,
  it yields the rest of the string once: always when there was no match at all (the
  constructor's case), and only if the rest is not empty after a match (the case of
  \<^verbatim>\<open>operator++\<close>). \<open>cur\<close> is the text since the last separator, \<open>matched\<close> says
  that a separator has been seen.
\<close>

fun tokens_from :: "string \<Rightarrow> string \<Rightarrow> bool \<Rightarrow> string list" where
  "tokens_from [] cur matched = (if matched \<and> cur = [] then [] else [cur])"
| "tokens_from (c # cs) cur matched =
     (if is_separator c then cur # tokens_from cs [] True
      else tokens_from cs (cur @ [c]) matched)"

definition tokens :: "string \<Rightarrow> string list" where
  "tokens s = tokens_from s [] False"

subsection \<open>The five regular expressions\<close>

text \<open>
  Each \<^verbatim>\<open>std::regex_match(str, match, r)\<close> is a scanner that returns the captured
  groups when the whole of \<open>str\<close> matches \<open>r\<close>. The classes \<^verbatim>\<open>\s\<close>, \<^verbatim>\<open>\d\<close> and
  the hyphen are disjoint, so the greedy scan finds the one way \<open>str\<close> can match.
\<close>

definition skip_space :: "string \<Rightarrow> string" where
  "skip_space str = dropWhile is_space str"

text \<open>\<^verbatim>\<open>(\d+)\<close>: the digits read and the rest, when there is at least one digit.\<close>

definition scan_digits :: "string \<Rightarrow> (string \<times> string) option" where
  "scan_digits str =
     (if takeWhile is_digit str = [] then None
      else Some (takeWhile is_digit str, dropWhile is_digit str))"

text \<open>\<^verbatim>\<open>-\<close>\<close>

definition scan_hyphen :: "string \<Rightarrow> string option" where
  "scan_hyphen str =
     (case str of [] \<Rightarrow> None | c # rest \<Rightarrow> if is_hyphen c then Some rest else None)"

text \<open>\<^verbatim>\<open>\s*(\d+)\s*\<close>\<close>

definition singlePage :: "string \<Rightarrow> string option" where
  "singlePage str =
     (case scan_digits (skip_space str) of
        None \<Rightarrow> None
      | Some (n, r1) \<Rightarrow> if skip_space r1 = [] then Some n else None)"

text \<open>\<^verbatim>\<open>\s*(\d+)\s*-\s*\<close>\<close>

definition rightOpenRange :: "string \<Rightarrow> string option" where
  "rightOpenRange str =
     (case scan_digits (skip_space str) of
        None \<Rightarrow> None
      | Some (n, r1) \<Rightarrow>
          (case scan_hyphen (skip_space r1) of
             None \<Rightarrow> None
           | Some r2 \<Rightarrow> if skip_space r2 = [] then Some n else None))"

text \<open>\<^verbatim>\<open>\s*-\s*(\d+)\s*\<close>\<close>

definition leftOpenRange :: "string \<Rightarrow> string option" where
  "leftOpenRange str =
     (case scan_hyphen (skip_space str) of
        None \<Rightarrow> None
      | Some r1 \<Rightarrow>
          (case scan_digits (skip_space r1) of
             None \<Rightarrow> None
           | Some (m, r2) \<Rightarrow> if skip_space r2 = [] then Some m else None))"

text \<open>\<^verbatim>\<open>\s*(\d+)\s*-\s*(\d+)\s*\<close>\<close>

definition pageRange :: "string \<Rightarrow> (string \<times> string) option" where
  "pageRange str =
     (case scan_digits (skip_space str) of
        None \<Rightarrow> None
      | Some (n, r1) \<Rightarrow>
          (case scan_hyphen (skip_space r1) of
             None \<Rightarrow> None
           | Some r2 \<Rightarrow>
               (case scan_digits (skip_space r2) of
                  None \<Rightarrow> None
                | Some (m, r3) \<Rightarrow> if skip_space r3 = [] then Some (n, m) else None)))"

text \<open>\<^verbatim>\<open>\s*-\s*\<close>\<close>

definition bothOpenRange :: "string \<Rightarrow> bool" where
  "bothOpenRange str =
     (case scan_hyphen (skip_space str) of
        None \<Rightarrow> False
      | Some r1 \<Rightarrow> skip_space r1 = [])"

subsection \<open>\<^verbatim>\<open>std::from_chars\<close>\<close>

definition digit_value :: "char \<Rightarrow> nat" where
  "digit_value c = of_char c - 48"

definition dec_value :: "string \<Rightarrow> nat" where
  "dec_value ds = foldl (\<lambda>acc c. 10 * acc + digit_value c) 0 ds"

text \<open>
  \<^verbatim>\<open>std::from_chars(p, p + n, value)\<close> for an unsigned type in base 10 reads the
  leading digits. Without a digit, or when the number does not fit the type, it reports
  the error in its result and leaves \<open>value\<close> as it was. The parser drops the result,
  so the model returns the variable only.
\<close>

definition from_chars :: "string \<Rightarrow> size_t \<Rightarrow> size_t" where
  "from_chars token val =
     (let ds = takeWhile is_digit token in
      if ds = [] then val
      else if dec_value ds < 2 ^ 64 then of_nat (dec_value ds)
      else val)"

subsection \<open>The loop body\<close>

text \<open>
  The \<^verbatim>\<open>if\<close>/\<^verbatim>\<open>else if\<close> chain that fills \<open>entry\<close>. The struct is declared in
  the header \<^verbatim>\<open>util/PageRange.h\<close>, and \<^verbatim>\<open>PageRange.cpp\<close> does not show whether its fields
  have default initialisers. So the contents of the freshly declared
  \<^verbatim>\<open>PageRangeEntry entry;\<close> are the parameter \<open>entry\<close>, the same at every iteration: zero
  in both fields with initialisers, anything without. They show only where
  \<^verbatim>\<open>std::from_chars\<close> leaves a field as it was.
\<close>

definition recognize :: "PageRangeEntry \<Rightarrow> size_t \<Rightarrow> string \<Rightarrow> exn + PageRangeEntry" where
  "recognize entry pageCount str =
     (case singlePage str of
        Some token \<Rightarrow>
          (let f = from_chars token (first entry) in Inr (entry\<lparr>first := f, last' := f\<rparr>))
      | None \<Rightarrow>
     (case rightOpenRange str of
        Some token \<Rightarrow>
          Inr (entry\<lparr>first := from_chars token (first entry), last' := pageCount\<rparr>)
      | None \<Rightarrow>
     (case leftOpenRange str of
        Some token \<Rightarrow>
          Inr (entry\<lparr>last' := from_chars token (last' entry), first := 1\<rparr>)
      | None \<Rightarrow>
     (case pageRange str of
        Some (tokenFirst, tokenLast) \<Rightarrow>
          Inr (entry\<lparr>first := from_chars tokenFirst (first entry),
                      last' := from_chars tokenLast (last' entry)\<rparr>)
      | None \<Rightarrow>
     (if bothOpenRange str then Inr (entry\<lparr>first := 1, last' := pageCount\<rparr>)
      else Inl InvalidRange)))))"

text \<open>The three checks and the decrement.\<close>

definition validate :: "size_t \<Rightarrow> PageRangeEntry \<Rightarrow> exn + PageRangeEntry" where
  "validate pageCount entry =
     (if first entry > pageCount \<or> last' entry > pageCount then Inl OutOfRange
      else if last' entry < first entry then Inl InvalidOrder
      else if first entry = 0 then Inl InvalidPageNumber
      else Inr (entry\<lparr>first := first entry - 1, last' := last' entry - 1\<rparr>))"

definition parse_entry :: "PageRangeEntry \<Rightarrow> size_t \<Rightarrow> string \<Rightarrow> exn + PageRangeEntry" where
  "parse_entry entry0 pageCount str =
     (case recognize entry0 pageCount str of
        Inl e \<Rightarrow> Inl e
      | Inr entry \<Rightarrow> validate pageCount entry)"

subsection \<open>The loop and the function\<close>

fun parse_loop ::
  "PageRangeEntry \<Rightarrow> size_t \<Rightarrow> string list \<Rightarrow> PageRangeEntry list \<Rightarrow> exn + PageRangeEntry list"
where
  "parse_loop entry0 pageCount [] entries = Inr entries"
| "parse_loop entry0 pageCount (str # rest) entries =
     (case parse_entry entry0 pageCount str of
        Inl e \<Rightarrow> Inl e
      | Inr entry \<Rightarrow> parse_loop entry0 pageCount rest (entries @ [entry]))"

definition parse :: "PageRangeEntry \<Rightarrow> string \<Rightarrow> size_t \<Rightarrow> exn + PageRangeEntry list" where
  "parse entry0 s pageCount =
     (if pageCount = 0 then Inl InvalidConfiguration
      else parse_loop entry0 pageCount (tokens s) [])"

subsection \<open>The five shapes as languages\<close>

text \<open>
  The languages of the five regular expressions, read off the expressions themselves:
  \<open>spaces\<close> is \<^verbatim>\<open>\s*\<close>, \<open>digits\<close> is \<^verbatim>\<open>\d+\<close>, and \<open>re_r str g\<close> says that
  the whole of \<open>str\<close> matches \<open>r\<close> with the text \<open>g\<close> in its group. They are what
  the scanners above are compared with; the parser is defined on the scanners.
\<close>

definition spaces :: "string \<Rightarrow> bool" where
  "spaces w = list_all is_space w"

definition digits :: "string \<Rightarrow> bool" where
  "digits n = (n \<noteq> [] \<and> list_all is_digit n)"

definition re_singlePage :: "string \<Rightarrow> string \<Rightarrow> bool" where
  "re_singlePage str n =
     (\<exists>w1 w2. spaces w1 \<and> digits n \<and> spaces w2 \<and> str = w1 @ n @ w2)"

definition re_rightOpenRange :: "string \<Rightarrow> string \<Rightarrow> bool" where
  "re_rightOpenRange str n =
     (\<exists>w1 w2 w3. spaces w1 \<and> digits n \<and> spaces w2 \<and> spaces w3 \<and>
        str = w1 @ n @ w2 @ CHR ''-'' # w3)"

definition re_leftOpenRange :: "string \<Rightarrow> string \<Rightarrow> bool" where
  "re_leftOpenRange str m =
     (\<exists>w1 w2 w3. spaces w1 \<and> spaces w2 \<and> digits m \<and> spaces w3 \<and>
        str = w1 @ CHR ''-'' # w2 @ m @ w3)"

definition re_pageRange :: "string \<Rightarrow> string \<Rightarrow> string \<Rightarrow> bool" where
  "re_pageRange str n m =
     (\<exists>w1 w2 w3 w4. spaces w1 \<and> digits n \<and> spaces w2 \<and> spaces w3 \<and> digits m \<and> spaces w4 \<and>
        str = w1 @ n @ w2 @ CHR ''-'' # w3 @ m @ w4)"

definition re_bothOpenRange :: "string \<Rightarrow> bool" where
  "re_bothOpenRange str =
     (\<exists>w1 w2. spaces w1 \<and> spaces w2 \<and> str = w1 @ CHR ''-'' # w2)"

text \<open>A sub-expression has one of the five shapes.\<close>

definition matches_shape :: "string \<Rightarrow> bool" where
  "matches_shape str =
     ((\<exists>n. re_singlePage str n) \<or> (\<exists>n. re_rightOpenRange str n) \<or>
      (\<exists>m. re_leftOpenRange str m) \<or> (\<exists>n m. re_pageRange str n m) \<or>
      re_bothOpenRange str)"

section \<open>The scanners recognise the regular expressions\<close>

lemma digit_not_space: "is_digit c \<Longrightarrow> \<not> is_space c"
  by (auto simp: is_digit_def is_space_def)

lemma hyphen_not_space: "\<not> is_space CHR ''-''"
  by (simp add: is_space_def)

lemma hyphen_not_digit: "\<not> is_digit CHR ''-''"
  by (simp add: is_digit_def)

lemma skip_space_Nil: "skip_space [] = []"
  by (simp add: skip_space_def)

lemma skip_space_spaces: "spaces w \<Longrightarrow> skip_space (w @ t) = skip_space t"
  by (induction w) (simp_all add: skip_space_def spaces_def)

lemma skip_space_only: "spaces w \<Longrightarrow> skip_space w = []"
  using skip_space_spaces [of w "[]"] by (simp add: skip_space_Nil)

lemma skip_space_digits: "digits n \<Longrightarrow> skip_space (n @ t) = n @ t"
  by (cases n) (simp_all add: skip_space_def digits_def digit_not_space)

lemma skip_space_hyphen: "skip_space (CHR ''-'' # t) = CHR ''-'' # t"
  by (simp add: skip_space_def hyphen_not_space)

lemma scan_digits_general:
  assumes d: "digits n" and t: "t = [] \<or> \<not> is_digit (hd t)"
  shows "scan_digits (n @ t) = Some (n, t)"
proof -
  from d have all: "\<forall>c\<in>set n. is_digit c" and ne: "n \<noteq> []"
    by (simp_all add: digits_def list_all_iff)
  from t have t1: "takeWhile is_digit t = []" and t2: "dropWhile is_digit t = t"
    by (cases t; auto)+
  from all have "takeWhile is_digit (n @ t) = n @ takeWhile is_digit t"
    and "dropWhile is_digit (n @ t) = dropWhile is_digit t"
    by simp_all
  with t1 t2 ne show ?thesis
    by (simp add: scan_digits_def)
qed

lemma scan_digits_end: "digits n \<Longrightarrow> spaces w \<Longrightarrow> scan_digits (n @ w) = Some (n, w)"
  by (rule scan_digits_general) (cases w; auto simp: spaces_def dest: digit_not_space)+

lemma scan_digits_before_hyphen:
  "digits n \<Longrightarrow> spaces w \<Longrightarrow>
   scan_digits (n @ w @ CHR ''-'' # t) = Some (n, w @ CHR ''-'' # t)"
  by (rule scan_digits_general) (cases w; auto simp: spaces_def hyphen_not_digit dest: digit_not_space)+

lemma scan_digits_Nil: "scan_digits [] = None"
  by (simp add: scan_digits_def)

lemma scan_digits_at_hyphen: "scan_digits (CHR ''-'' # t) = None"
  by (simp add: scan_digits_def hyphen_not_digit)

lemma scan_hyphen_hyphen: "scan_hyphen (CHR ''-'' # t) = Some t"
  by (simp add: scan_hyphen_def is_hyphen_def)

lemma scan_hyphen_Nil: "scan_hyphen [] = None"
  by (simp add: scan_hyphen_def)

lemma scan_hyphen_digits: "digits n \<Longrightarrow> scan_hyphen (n @ t) = None"
  by (cases n) (auto simp: scan_hyphen_def is_hyphen_def digits_def hyphen_not_digit)

lemmas scan_simps =
  skip_space_Nil skip_space_spaces skip_space_only skip_space_digits skip_space_hyphen
  scan_digits_end scan_digits_before_hyphen scan_digits_Nil scan_digits_at_hyphen
  scan_hyphen_hyphen scan_hyphen_Nil scan_hyphen_digits

text \<open>What a successful scan says about its input.\<close>

lemma skip_spaceD: "skip_space s = t \<Longrightarrow> \<exists>w. spaces w \<and> s = w @ t"
  unfolding skip_space_def spaces_def
  by (rule exI [of _ "takeWhile is_space s"]) (auto simp: list_all_iff dest: set_takeWhileD)

lemma skip_space_NilD: "skip_space s = [] \<Longrightarrow> spaces s"
  using skip_spaceD [of s "[]"] by auto

lemma scan_digitsD: "scan_digits s = Some (n, r) \<Longrightarrow> digits n \<and> s = n @ r"
  by (auto simp: scan_digits_def digits_def list_all_iff split: if_splits dest: set_takeWhileD)

lemma scan_hyphenD: "scan_hyphen s = Some r \<Longrightarrow> s = CHR ''-'' # r"
  by (auto simp: scan_hyphen_def is_hyphen_def split: list.splits if_splits)

lemma singlePage_iff: "singlePage str = Some n \<longleftrightarrow> re_singlePage str n"
proof
  assume "singlePage str = Some n"
  then obtain r1 where a: "scan_digits (skip_space str) = Some (n, r1)" and b: "skip_space r1 = []"
    by (auto simp: singlePage_def split: option.splits if_splits)
  from skip_spaceD [OF refl, of str] obtain w1 where "spaces w1" "str = w1 @ skip_space str" by blast
  with scan_digitsD [OF a] skip_space_NilD [OF b] show "re_singlePage str n"
    unfolding re_singlePage_def by metis
next
  assume "re_singlePage str n"
  then show "singlePage str = Some n"
    by (auto simp: re_singlePage_def singlePage_def scan_simps)
qed

lemma rightOpenRange_iff: "rightOpenRange str = Some n \<longleftrightarrow> re_rightOpenRange str n"
proof
  assume "rightOpenRange str = Some n"
  then obtain r1 r2 where a: "scan_digits (skip_space str) = Some (n, r1)"
    and b: "scan_hyphen (skip_space r1) = Some r2" and c: "skip_space r2 = []"
    by (auto simp: rightOpenRange_def split: option.splits if_splits)
  from skip_spaceD [OF refl, of str] obtain w1 where "spaces w1" "str = w1 @ skip_space str" by blast
  moreover from skip_spaceD [OF refl, of r1] obtain w2 where "spaces w2" "r1 = w2 @ skip_space r1" by blast
  ultimately show "re_rightOpenRange str n"
    using scan_digitsD [OF a] scan_hyphenD [OF b] skip_space_NilD [OF c]
    unfolding re_rightOpenRange_def by metis
next
  assume "re_rightOpenRange str n"
  then show "rightOpenRange str = Some n"
    by (auto simp: re_rightOpenRange_def rightOpenRange_def scan_simps)
qed

lemma leftOpenRange_iff: "leftOpenRange str = Some m \<longleftrightarrow> re_leftOpenRange str m"
proof
  assume "leftOpenRange str = Some m"
  then obtain r1 r2 where a: "scan_hyphen (skip_space str) = Some r1"
    and b: "scan_digits (skip_space r1) = Some (m, r2)" and c: "skip_space r2 = []"
    by (auto simp: leftOpenRange_def split: option.splits if_splits)
  from skip_spaceD [OF refl, of str] obtain w1 where "spaces w1" "str = w1 @ skip_space str" by blast
  moreover from skip_spaceD [OF refl, of r1] obtain w2 where "spaces w2" "r1 = w2 @ skip_space r1" by blast
  ultimately show "re_leftOpenRange str m"
    using scan_hyphenD [OF a] scan_digitsD [OF b] skip_space_NilD [OF c]
    unfolding re_leftOpenRange_def by metis
next
  assume "re_leftOpenRange str m"
  then show "leftOpenRange str = Some m"
    by (auto simp: re_leftOpenRange_def leftOpenRange_def scan_simps)
qed

lemma pageRange_iff: "pageRange str = Some (n, m) \<longleftrightarrow> re_pageRange str n m"
proof
  assume "pageRange str = Some (n, m)"
  then obtain r1 r2 r3 where a: "scan_digits (skip_space str) = Some (n, r1)"
    and b: "scan_hyphen (skip_space r1) = Some r2"
    and c: "scan_digits (skip_space r2) = Some (m, r3)" and d: "skip_space r3 = []"
    by (auto simp: pageRange_def split: option.splits if_splits)
  from skip_spaceD [OF refl, of str] obtain w1 where "spaces w1" "str = w1 @ skip_space str" by blast
  moreover from skip_spaceD [OF refl, of r1] obtain w2 where "spaces w2" "r1 = w2 @ skip_space r1" by blast
  moreover from skip_spaceD [OF refl, of r2] obtain w3 where "spaces w3" "r2 = w3 @ skip_space r2" by blast
  ultimately show "re_pageRange str n m"
    using scan_digitsD [OF a] scan_hyphenD [OF b] scan_digitsD [OF c] skip_space_NilD [OF d]
    unfolding re_pageRange_def by metis
next
  assume "re_pageRange str n m"
  then show "pageRange str = Some (n, m)"
    by (auto simp: re_pageRange_def pageRange_def scan_simps)
qed

lemma bothOpenRange_iff: "bothOpenRange str \<longleftrightarrow> re_bothOpenRange str"
proof
  assume "bothOpenRange str"
  then obtain r1 where a: "scan_hyphen (skip_space str) = Some r1" and b: "skip_space r1 = []"
    by (auto simp: bothOpenRange_def split: option.splits)
  from skip_spaceD [OF refl, of str] obtain w1 where "spaces w1" "str = w1 @ skip_space str" by blast
  then show "re_bothOpenRange str"
    using scan_hyphenD [OF a] skip_space_NilD [OF b]
    unfolding re_bothOpenRange_def by metis
next
  assume "re_bothOpenRange str"
  then show "bothOpenRange str"
    by (auto simp: re_bothOpenRange_def bothOpenRange_def scan_simps)
qed

subsection \<open>The shapes exclude each other\<close>

lemma not_digits_Nil: "\<not> digits []"
  by (simp add: digits_def)

lemma rightOpen_excl: "re_rightOpenRange str n \<Longrightarrow> singlePage str = None"
  by (auto simp: re_rightOpenRange_def singlePage_def scan_simps)

lemma leftOpen_excl:
  "re_leftOpenRange str m \<Longrightarrow> singlePage str = None \<and> rightOpenRange str = None"
  by (auto simp: re_leftOpenRange_def singlePage_def rightOpenRange_def scan_simps)

lemma pageRange_excl:
  "re_pageRange str n m \<Longrightarrow>
   singlePage str = None \<and> rightOpenRange str = None \<and> leftOpenRange str = None"
  by (auto simp: re_pageRange_def singlePage_def rightOpenRange_def leftOpenRange_def
      scan_simps not_digits_Nil)

lemma bothOpen_excl:
  "re_bothOpenRange str \<Longrightarrow>
   singlePage str = None \<and> rightOpenRange str = None \<and> leftOpenRange str = None \<and>
   pageRange str = None"
  by (auto simp: re_bothOpenRange_def singlePage_def rightOpenRange_def leftOpenRange_def
      pageRange_def scan_simps)

subsection \<open>What the recognizer extracts from each shape\<close>

lemma recognize_singlePage:
  "re_singlePage str n \<Longrightarrow>
   recognize e pc str = Inr \<lparr>first = from_chars n (first e), last' = from_chars n (first e)\<rparr>"
  by (simp add: recognize_def singlePage_iff [symmetric] Let_def)

lemma recognize_rightOpenRange:
  "re_rightOpenRange str n \<Longrightarrow>
   recognize e pc str = Inr \<lparr>first = from_chars n (first e), last' = pc\<rparr>"
  using rightOpen_excl [of str n]
  by (simp add: recognize_def rightOpenRange_iff [symmetric])

lemma recognize_leftOpenRange:
  "re_leftOpenRange str m \<Longrightarrow>
   recognize e pc str = Inr \<lparr>first = 1, last' = from_chars m (last' e)\<rparr>"
  using leftOpen_excl [of str m]
  by (simp add: recognize_def leftOpenRange_iff [symmetric])

lemma recognize_pageRange:
  "re_pageRange str n m \<Longrightarrow>
   recognize e pc str = Inr \<lparr>first = from_chars n (first e), last' = from_chars m (last' e)\<rparr>"
  using pageRange_excl [of str n m]
  by (simp add: recognize_def pageRange_iff [symmetric])

lemma recognize_bothOpenRange:
  "re_bothOpenRange str \<Longrightarrow> recognize e pc str = Inr \<lparr>first = 1, last' = pc\<rparr>"
  using bothOpen_excl [of str]
  by (simp add: recognize_def bothOpenRange_iff [symmetric])

lemma recognize_InvalidRange_iff:
  "recognize e pc str = Inl err \<longleftrightarrow>
   err = InvalidRange \<and> \<not> matches_shape str"
  by (auto simp: matches_shape_def recognize_def Let_def singlePage_iff [symmetric] rightOpenRange_iff [symmetric]
      leftOpenRange_iff [symmetric] pageRange_iff [symmetric] bothOpenRange_iff [symmetric]
      split: option.splits)

subsection \<open>Reading numbers\<close>

lemma takeWhile_digits: "digits n \<Longrightarrow> takeWhile is_digit n = n"
  by (simp add: digits_def list_all_iff)

lemma from_chars_fits:
  "digits n \<Longrightarrow> dec_value n < 2 ^ 64 \<Longrightarrow> from_chars n v = of_nat (dec_value n)"
  by (simp add: from_chars_def takeWhile_digits digits_def)

lemma from_chars_overflow:
  "digits n \<Longrightarrow> 2 ^ 64 \<le> dec_value n \<Longrightarrow> from_chars n v = v"
  by (simp add: from_chars_def takeWhile_digits digits_def)

subsection \<open>Validation in terms of the numbers\<close>

lemma validate_nat:
  "validate pc e =
     (if unat pc < unat (first e) \<or> unat pc < unat (last' e) then Inl OutOfRange
      else if unat (last' e) < unat (first e) then Inl InvalidOrder
      else if unat (first e) = 0 then Inl InvalidPageNumber
      else Inr \<lparr>first = first e - 1, last' = last' e - 1\<rparr>)"
  by (simp add: validate_def word_less_nat_alt unat_eq_0)

lemma validate_Inr_bounds:
  assumes "validate pc raw = Inr e"
  shows "unat (first e) \<le> unat (last' e) \<and> unat (last' e) < unat pc"
proof -
  from assms have a: "1 \<le> unat (first raw)" "unat (first raw) \<le> unat (last' raw)"
    "unat (last' raw) \<le> unat pc" and e: "e = \<lparr>first = first raw - 1, last' = last' raw - 1\<rparr>"
    by (auto simp: validate_nat split: if_splits)
  from a have "first raw \<noteq> 0" "last' raw \<noteq> 0" by auto
  then have "unat (first raw - 1) = unat (first raw) - 1" "unat (last' raw - 1) = unat (last' raw) - 1"
    by (simp_all add: unat_minus_one)
  with a e show ?thesis by auto
qed

section \<open>The loop\<close>

text \<open>Unfolding sets for running the parser on a given text.\<close>

lemmas scan_defs =
  singlePage_def rightOpenRange_def leftOpenRange_def pageRange_def bothOpenRange_def
  scan_digits_def scan_hyphen_def skip_space_def is_space_def is_digit_def is_hyphen_def

lemmas entry_defs =
  parse_entry_def recognize_def validate_def from_chars_def dec_value_def digit_value_def

lemmas exn_defs =
  InvalidConfiguration_def InvalidRange_def OutOfRange_def InvalidOrder_def InvalidPageNumber_def

lemma parse_loop_Inr_iff:
  "parse_loop e0 pc toks acc = Inr es \<longleftrightarrow>
   (\<exists>es'. es = acc @ es' \<and> map (parse_entry e0 pc) toks = map Inr es')"
proof (induction toks arbitrary: acc)
  case Nil
  show ?case by auto
next
  case (Cons t ts)
  show ?case
  proof (cases "parse_entry e0 pc t")
    case (Inl err)
    then show ?thesis by auto
  next
    case (Inr x)
    have "(\<exists>es''. es = (acc @ [x]) @ es'' \<and> map (parse_entry e0 pc) ts = map Inr es'') \<longleftrightarrow>
          (\<exists>es'. es = acc @ es' \<and> Inr x # map (parse_entry e0 pc) ts = map Inr es')"
      by (auto simp: Cons_eq_map_conv)
    with Inr Cons.IH [of "acc @ [x]"] show ?thesis by simp
  qed
qed

lemma parse_loop_Inl:
  "parse_loop e0 pc toks acc = Inl err \<Longrightarrow> \<exists>t\<in>set toks. parse_entry e0 pc t = Inl err"
  by (induction toks arbitrary: acc) (auto split: sum.splits)

lemma parse_loop_fail_at:
  "\<forall>u\<in>set pre. \<exists>e. parse_entry e0 pc u = Inr e \<Longrightarrow> parse_entry e0 pc t = Inl err \<Longrightarrow>
   parse_loop e0 pc (pre @ t # post) acc = Inl err"
  by (induction pre arbitrary: acc) auto

lemma parse_Inr_iff:
  "parse e0 s pc = Inr es \<longleftrightarrow> pc \<noteq> 0 \<and> map (parse_entry e0 pc) (tokens s) = map Inr es"
  by (simp add: parse_def parse_loop_Inr_iff)

lemma parse_fail_at:
  "pc \<noteq> 0 \<Longrightarrow> tokens s = pre @ t # post \<Longrightarrow>
   \<forall>u\<in>set pre. \<exists>e. parse_entry e0 pc u = Inr e \<Longrightarrow> parse_entry e0 pc t = Inl err \<Longrightarrow>
   parse e0 s pc = Inl err"
  by (simp add: parse_def parse_loop_fail_at)

lemma parse_entry_Inr_bounds:
  "parse_entry e0 pc t = Inr e \<Longrightarrow> unat (first e) \<le> unat (last' e) \<and> unat (last' e) < unat pc"
  by (auto simp: parse_entry_def split: sum.splits dest: validate_Inr_bounds)

lemma parse_entry_Inl_cases:
  "parse_entry e0 pc t = Inl err \<Longrightarrow>
   err = InvalidRange \<or> err = OutOfRange \<or> err = InvalidOrder \<or> err = InvalidPageNumber"
  by (auto simp: parse_entry_def validate_def recognize_InvalidRange_iff split: sum.splits if_splits)

lemma parse_entry_Nil: "parse_entry e0 pc [] = Inl InvalidRange"
  by (simp add: entry_defs scan_defs)

lemma parse_all_five_shapes: "parse e0 ''1, 2-, -3, 4-5, -'' 10 =
   Inr [\<lparr>first = 0, last' = 0\<rparr>, \<lparr>first = 1, last' = 9\<rparr>, \<lparr>first = 0, last' = 2\<rparr>,
        \<lparr>first = 3, last' = 4\<rparr>, \<lparr>first = 0, last' = 9\<rparr>]"
proof -
  have t: "tokens ''1, 2-, -3, 4-5, -'' = [''1'', '' 2-'', '' -3'', '' 4-5'', '' -'']"
    by (simp add: tokens_def is_separator_def)
  have "parse_entry e0 10 ''1'' = Inr \<lparr>first = 0, last' = 0\<rparr>"
    "parse_entry e0 10 '' 2-'' = Inr \<lparr>first = 1, last' = 9\<rparr>"
    "parse_entry e0 10 '' -3'' = Inr \<lparr>first = 0, last' = 2\<rparr>"
    "parse_entry e0 10 '' 4-5'' = Inr \<lparr>first = 3, last' = 4\<rparr>"
    "parse_entry e0 10 '' -'' = Inr \<lparr>first = 0, last' = 9\<rparr>"
    by (simp_all add: entry_defs scan_defs)
  with t show ?thesis by (simp add: parse_def)
qed

section \<open>Valid sub-expressions of each shape\<close>

lemma from_chars_valid:
  assumes d: "digits n" and le: "dec_value n \<le> unat (pc :: size_t)"
  shows "from_chars n v = of_nat (dec_value n)"
    and "unat (of_nat (dec_value n) :: size_t) = dec_value n"
proof -
  have "unat pc < 2 ^ 64" using unsigned_less [of pc] by simp
  with le have lt: "dec_value n < 2 ^ 64" by simp
  with d show "from_chars n v = of_nat (dec_value n)" by (rule from_chars_fits)
  from lt show "unat (of_nat (dec_value n) :: size_t) = dec_value n" by (simp add: unat_of_nat)
qed

lemma validate_ok:
  "1 \<le> unat a \<Longrightarrow> unat a \<le> unat b \<Longrightarrow> unat b \<le> unat pc \<Longrightarrow>
   validate pc \<lparr>first = a, last' = b\<rparr> = Inr \<lparr>first = a - 1, last' = b - 1\<rparr>"
  by (simp add: validate_nat)

lemma unat_one_le: "pc \<noteq> 0 \<Longrightarrow> 1 \<le> unat (pc :: size_t)"
  by (simp add: unat_gt_0 Suc_le_eq)

lemma parse_entry_singlePage:
  assumes "re_singlePage str n" "1 \<le> dec_value n" "dec_value n \<le> unat pc"
  shows "parse_entry e0 pc str =
         Inr \<lparr>first = of_nat (dec_value n - 1), last' = of_nat (dec_value n - 1)\<rparr>"
proof -
  from assms(1) have d: "digits n" by (auto simp: re_singlePage_def)
  note f = from_chars_valid [OF d assms(3)]
  from assms f have "validate pc \<lparr>first = from_chars n (first e0), last' = from_chars n (first e0)\<rparr>
      = Inr \<lparr>first = from_chars n (first e0) - 1, last' = from_chars n (first e0) - 1\<rparr>"
    by (intro validate_ok) simp_all
  with assms f show ?thesis
    by (simp add: parse_entry_def recognize_singlePage)
qed

lemma parse_entry_rightOpenRange:
  assumes "re_rightOpenRange str n" "1 \<le> dec_value n" "dec_value n \<le> unat pc"
  shows "parse_entry e0 pc str = Inr \<lparr>first = of_nat (dec_value n - 1), last' = pc - 1\<rparr>"
proof -
  from assms(1) have d: "digits n" by (auto simp: re_rightOpenRange_def)
  note f = from_chars_valid [OF d assms(3)]
  from assms f have "validate pc \<lparr>first = from_chars n (first e0), last' = pc\<rparr>
      = Inr \<lparr>first = from_chars n (first e0) - 1, last' = pc - 1\<rparr>"
    by (intro validate_ok) simp_all
  with assms f show ?thesis
    by (simp add: parse_entry_def recognize_rightOpenRange)
qed

lemma parse_entry_leftOpenRange:
  assumes "re_leftOpenRange str m" "1 \<le> dec_value m" "dec_value m \<le> unat pc"
  shows "parse_entry e0 pc str = Inr \<lparr>first = 0, last' = of_nat (dec_value m - 1)\<rparr>"
proof -
  from assms(1) have d: "digits m" by (auto simp: re_leftOpenRange_def)
  note f = from_chars_valid [OF d assms(3)]
  from assms f have "validate pc \<lparr>first = 1, last' = from_chars m (last' e0)\<rparr>
      = Inr \<lparr>first = 1 - 1, last' = from_chars m (last' e0) - 1\<rparr>"
    by (intro validate_ok) simp_all
  with assms f show ?thesis
    by (simp add: parse_entry_def recognize_leftOpenRange)
qed

lemma parse_entry_pageRange:
  assumes "re_pageRange str n m" "1 \<le> dec_value n" "dec_value n \<le> dec_value m"
    "dec_value m \<le> unat pc"
  shows "parse_entry e0 pc str =
         Inr \<lparr>first = of_nat (dec_value n - 1), last' = of_nat (dec_value m - 1)\<rparr>"
proof -
  from assms(1) have dn: "digits n" and dm: "digits m" by (auto simp: re_pageRange_def)
  from assms have n: "dec_value n \<le> unat pc" by simp
  note fn = from_chars_valid [OF dn n] and fm = from_chars_valid [OF dm assms(4)]
  from assms fn fm
  have "validate pc \<lparr>first = from_chars n (first e0), last' = from_chars m (last' e0)\<rparr>
      = Inr \<lparr>first = from_chars n (first e0) - 1, last' = from_chars m (last' e0) - 1\<rparr>"
    by (intro validate_ok) simp_all
  with assms fn fm show ?thesis
    by (simp add: parse_entry_def recognize_pageRange)
qed

lemma parse_entry_bothOpenRange:
  assumes "re_bothOpenRange str" "pc \<noteq> 0"
  shows "parse_entry e0 pc str = Inr \<lparr>first = 0, last' = pc - 1\<rparr>"
proof -
  from assms(2) have "1 \<le> unat pc" by (rule unat_one_le)
  then have "validate pc \<lparr>first = 1, last' = pc\<rparr> = Inr \<lparr>first = 1 - 1, last' = pc - 1\<rparr>"
    by (intro validate_ok) simp_all
  with assms show ?thesis
    by (simp add: parse_entry_def recognize_bothOpenRange)
qed

section \<open>Errors, examples and the tokenizer\<close>

lemma exn_distinct:
  "InvalidRange \<noteq> OutOfRange" "InvalidRange \<noteq> InvalidOrder" "InvalidRange \<noteq> InvalidPageNumber"
  "OutOfRange \<noteq> InvalidOrder" "OutOfRange \<noteq> InvalidPageNumber" "InvalidOrder \<noteq> InvalidPageNumber"
  "InvalidConfiguration \<noteq> InvalidRange" "InvalidConfiguration \<noteq> OutOfRange"
  "InvalidConfiguration \<noteq> InvalidOrder" "InvalidConfiguration \<noteq> InvalidPageNumber"
  by (simp_all add: exn_defs)

lemma parse_entry_InvalidRange_iff:
  "parse_entry e0 pc str = Inl InvalidRange \<longleftrightarrow> \<not> matches_shape str"
proof (cases "recognize e0 pc str")
  case (Inl err)
  then show ?thesis
    using recognize_InvalidRange_iff [of e0 pc str err] by (simp add: parse_entry_def)
next
  case (Inr raw)
  then have "matches_shape str"
    using recognize_InvalidRange_iff [of e0 pc str InvalidRange] by simp
  moreover have "validate pc raw \<noteq> Inl InvalidRange"
    using exn_distinct by (simp add: validate_def)
  ultimately show ?thesis using Inr by (simp add: parse_entry_def)
qed

text \<open>The parser on the texts the claims name.\<close>

lemma parse_examples:
  "parse e0 ''0-42'' 10 = Inl OutOfRange"
  "parse e0 ''11'' 10 = Inl OutOfRange"
  "parse e0 ''11-2'' 10 = Inl OutOfRange"
  "parse e0 ''0-11'' 10 = Inl OutOfRange"
  "parse e0 ''5-2'' 10 = Inl InvalidOrder"
  "parse e0 ''0'' 10 = Inl InvalidPageNumber"
  "parse e0 ''1-2-3'' 10 = Inl InvalidRange"
  "parse e0 ''abc'' 10 = Inl InvalidRange"
  "parse e0 ''1,'' 10 = Inr [\<lparr>first = 0, last' = 0\<rparr>]"
  "parse e0 '',1'' 10 = Inl InvalidRange"
  "parse e0 ''1,,2'' 10 = Inl InvalidRange"
  "parse e0 ''-0'' 10 = Inl InvalidOrder"
  "parse e0 ''3-0'' 10 = Inl InvalidOrder"
  by (simp_all add: parse_def tokens_def is_separator_def entry_defs scan_defs)

subsection \<open>Separators at the ends and in a row\<close>

lemma tokens_from_trailing:
  "is_separator c \<Longrightarrow> (s = [] \<longrightarrow> cur \<noteq> []) \<Longrightarrow> (s \<noteq> [] \<longrightarrow> \<not> is_separator (last s)) \<Longrightarrow>
   tokens_from (s @ [c]) cur m = tokens_from s cur m"
proof (induction s arbitrary: cur m)
  case Nil
  then show ?case by simp
next
  case (Cons x xs)
  show ?case
  proof (cases "is_separator x")
    case True
    with Cons.prems have "xs \<noteq> []" by auto
    with Cons.prems have "tokens_from (xs @ [c]) [] True = tokens_from xs [] True"
      by (intro Cons.IH) (auto split: if_splits)
    with True show ?thesis by simp
  next
    case False
    from Cons.prems have "tokens_from (xs @ [c]) (cur @ [x]) m = tokens_from xs (cur @ [x]) m"
      by (intro Cons.IH) (auto split: if_splits)
    with False show ?thesis by simp
  qed
qed

lemma tokens_from_split:
  "is_separator c \<Longrightarrow>
   tokens_from (s1 @ c # rest) cur m = tokens_from (s1 @ [c]) cur m @ tokens_from rest [] True"
  by (induction s1 arbitrary: cur m) simp_all

lemma tokens_leading: "is_separator c \<Longrightarrow> tokens (c # s) = [] # tokens_from s [] True"
  by (simp add: tokens_def)

lemma tokens_doubled:
  "is_separator c \<Longrightarrow> is_separator d \<Longrightarrow>
   tokens (s1 @ c # d # s2) = tokens (s1 @ [c]) @ [] # tokens_from s2 [] True"
  by (simp add: tokens_def tokens_from_split [of c s1 "d # s2"])

section \<open>The claims\<close>

subsection \<open>C1: returned entries lie in the document\<close>

text \<open>
  C1. Whenever \<open>parse\<close> succeeds, every entry of the result satisfies
  \<open>0 \<le> first \<le> last < pageCount\<close>, read as unsigned numbers. A successful call has
  \<open>pageCount \<ge> 1\<close>, since \<open>pageCount = 0\<close> throws; the contents \<open>e0\<close> of the fresh
  entry do not matter.
\<close>

theorem parse_entries_in_range:
  "parse e0 s pageCount = Inr entries \<Longrightarrow> e \<in> set entries \<Longrightarrow>
   0 \<le> unat (first e) \<and> unat (first e) \<le> unat (last' e) \<and> unat (last' e) < unat pageCount"
proof -
  assume p: "parse e0 s pageCount = Inr entries" and e: "e \<in> set entries"
  from p have m: "map (parse_entry e0 pageCount) (tokens s) = map Inr entries"
    by (simp add: parse_Inr_iff)
  from e have "Inr e \<in> set (map (parse_entry e0 pageCount) (tokens s))"
    unfolding m by simp
  then obtain t where "parse_entry e0 pageCount t = Inr e" by auto
  then show ?thesis by (simp add: parse_entry_Inr_bounds)
qed

theorem parse_entries_in_range_witness:
  "parse \<lparr>first = 0, last' = 0\<rparr> ''2-, 4-5'' 10 = Inr [\<lparr>first = 1, last' = 9\<rparr>, \<lparr>first = 3, last' = 4\<rparr>]
   \<and> \<lparr>first = 3, last' = 4\<rparr> \<in> set [\<lparr>first = 1, last' = 9\<rparr>, \<lparr>first = 3, last' = 4\<rparr>]
   \<and> unat (3 :: size_t) \<le> unat (4 :: size_t) \<and> unat (4 :: size_t) < unat (10 :: size_t)"
proof -
  have p: "parse \<lparr>first = 0, last' = 0\<rparr> ''2-, 4-5'' 10
      = Inr [\<lparr>first = 1, last' = 9\<rparr>, \<lparr>first = 3, last' = 4\<rparr>]"
    by (simp add: parse_def tokens_def is_separator_def entry_defs scan_defs)
  have m: "\<lparr>first = 3, last' = 4\<rparr> \<in> set [\<lparr>first = 1, last' = 9\<rparr>, \<lparr>first = 3, last' = 4\<rparr>]"
    by simp
  from parse_entries_in_range [OF p m] p m show ?thesis by simp
qed

subsection \<open>C2: the entry of each shape, in input order\<close>

text \<open>
  C2. For a sub-expression of each shape whose numbers are valid page numbers
  (\<open>1 \<le> n \<le> pageCount\<close>, and \<open>n \<le> m\<close> for a closed range), the loop body produces:
  \<open>n\<close> gives \<open>(n-1, n-1)\<close>; \<open>n-\<close> gives \<open>(n-1, pageCount-1)\<close>; \<open>-m\<close> gives
  \<open>(0, m-1)\<close>; \<open>n-m\<close> gives \<open>(n-1, m-1)\<close>; \<open>-\<close> gives \<open>(0, pageCount-1)\<close>, with
  any white space around the numbers and the hyphen. A successful \<open>parse\<close> returns
  exactly the entries of the sub-expressions, one for each, in the order of the input.
  In particular \<^verbatim>\<open>parse("1, 2-, -3, 4-5, -", 10)\<close> is
  \<^verbatim>\<open>[{0,0},{1,9},{0,2},{3,4},{0,9}]\<close>.
\<close>

theorem shapes_give_entries_in_order:
  "(re_singlePage str1 n1 \<and> 1 \<le> dec_value n1 \<and> dec_value n1 \<le> unat pageCount \<longrightarrow>
      parse_entry e0 pageCount str1 =
        Inr \<lparr>first = of_nat (dec_value n1 - 1), last' = of_nat (dec_value n1 - 1)\<rparr>) \<and>
   (re_rightOpenRange str2 n2 \<and> 1 \<le> dec_value n2 \<and> dec_value n2 \<le> unat pageCount \<longrightarrow>
      parse_entry e0 pageCount str2 =
        Inr \<lparr>first = of_nat (dec_value n2 - 1), last' = pageCount - 1\<rparr>) \<and>
   (re_leftOpenRange str3 m3 \<and> 1 \<le> dec_value m3 \<and> dec_value m3 \<le> unat pageCount \<longrightarrow>
      parse_entry e0 pageCount str3 =
        Inr \<lparr>first = 0, last' = of_nat (dec_value m3 - 1)\<rparr>) \<and>
   (re_pageRange str4 n4 m4 \<and> 1 \<le> dec_value n4 \<and> dec_value n4 \<le> dec_value m4 \<and>
    dec_value m4 \<le> unat pageCount \<longrightarrow>
      parse_entry e0 pageCount str4 =
        Inr \<lparr>first = of_nat (dec_value n4 - 1), last' = of_nat (dec_value m4 - 1)\<rparr>) \<and>
   (re_bothOpenRange str5 \<and> pageCount \<noteq> 0 \<longrightarrow>
      parse_entry e0 pageCount str5 = Inr \<lparr>first = 0, last' = pageCount - 1\<rparr>) \<and>
   (parse e0 s pageCount = Inr entries \<longleftrightarrow>
      pageCount \<noteq> 0 \<and> map (parse_entry e0 pageCount) (tokens s) = map Inr entries) \<and>
   parse e0 ''1, 2-, -3, 4-5, -'' 10 =
     Inr [\<lparr>first = 0, last' = 0\<rparr>, \<lparr>first = 1, last' = 9\<rparr>, \<lparr>first = 0, last' = 2\<rparr>,
          \<lparr>first = 3, last' = 4\<rparr>, \<lparr>first = 0, last' = 9\<rparr>]"
  using parse_entry_singlePage [of str1 n1 pageCount e0]
    parse_entry_rightOpenRange [of str2 n2 pageCount e0]
    parse_entry_leftOpenRange [of str3 m3 pageCount e0]
    parse_entry_pageRange [of str4 n4 m4 pageCount e0]
    parse_entry_bothOpenRange [of str5 pageCount e0]
    parse_Inr_iff [of e0 s pageCount entries]
    parse_all_five_shapes [of e0]
  by blast

theorem shapes_give_entries_in_order_witness:
  "parse_entry \<lparr>first = 0, last' = 0\<rparr> 10 '' 7 '' = Inr \<lparr>first = 6, last' = 6\<rparr> \<and>
   parse_entry \<lparr>first = 0, last' = 0\<rparr> 10 ''2 -'' = Inr \<lparr>first = 1, last' = 9\<rparr> \<and>
   parse_entry \<lparr>first = 0, last' = 0\<rparr> 10 ''- 3'' = Inr \<lparr>first = 0, last' = 2\<rparr> \<and>
   parse_entry \<lparr>first = 0, last' = 0\<rparr> 10 ''4-5'' = Inr \<lparr>first = 3, last' = 4\<rparr> \<and>
   parse_entry \<lparr>first = 0, last' = 0\<rparr> 10 ''-'' = Inr \<lparr>first = 0, last' = 9\<rparr> \<and>
   map (parse_entry \<lparr>first = 0, last' = 0\<rparr> 10) (tokens ''1;4-5'') =
     map Inr [\<lparr>first = 0, last' = 0\<rparr>, \<lparr>first = 3, last' = 4\<rparr>]"
proof -
  let ?z = "\<lparr>first = 0, last' = 0\<rparr>"
  have r: "re_singlePage '' 7 '' ''7''" "re_rightOpenRange ''2 -'' ''2''"
    "re_leftOpenRange ''- 3'' ''3''" "re_pageRange ''4-5'' ''4'' ''5''" "re_bothOpenRange ''-''"
    unfolding singlePage_iff [symmetric] rightOpenRange_iff [symmetric]
      leftOpenRange_iff [symmetric] pageRange_iff [symmetric] bothOpenRange_iff [symmetric]
    by (simp_all add: scan_defs)
  have v: "dec_value ''7'' = 7" "dec_value ''2'' = 2" "dec_value ''3'' = 3"
    "dec_value ''4'' = 4" "dec_value ''5'' = 5"
    by (simp_all add: dec_value_def digit_value_def)
  have p: "parse ?z ''1;4-5'' 10 = Inr [\<lparr>first = 0, last' = 0\<rparr>, \<lparr>first = 3, last' = 4\<rparr>]"
    by (simp add: parse_def tokens_def is_separator_def entry_defs scan_defs)
  from shapes_give_entries_in_order [of "'' 7 ''" "''7''" 10 ?z "''2 -''" "''2''" "''- 3''" "''3''"
      "''4-5''" "''4''" "''5''" "''-''" "''1;4-5''"
      "[\<lparr>first = 0, last' = 0\<rparr>, \<lparr>first = 3, last' = 4\<rparr>]"] r p
  show ?thesis by (simp add: v)
qed

subsection \<open>C3: bounds above the page count are rejected\<close>

text \<open>
  C3. When the raw entry extracted from a sub-expression has \<open>first > pageCount\<close> or
  \<open>last > pageCount\<close>, the loop body throws the out-of-range error, and so does \<open>parse\<close>
  on every text in which the sub-expressions before it are accepted: the bound is never
  brought down to \<open>pageCount\<close>. The header comment's \<^verbatim>\<open>0-42\<close> with 10 pages is an error,
  not \<^verbatim>\<open>{0, 9}\<close>.
\<close>

theorem out_of_range_rejected:
  "(recognize e0 pageCount str = Inr raw \<and> (pageCount < first raw \<or> pageCount < last' raw) \<longrightarrow>
      parse_entry e0 pageCount str = Inl OutOfRange \<and>
      (pageCount \<noteq> 0 \<and> tokens s = pre @ str # post \<and>
       (\<forall>u\<in>set pre. \<exists>e. parse_entry e0 pageCount u = Inr e) \<longrightarrow>
         parse e0 s pageCount = Inl OutOfRange)) \<and>
   parse e0 ''11'' 10 = Inl OutOfRange \<and>
   parse e0 ''0-42'' 10 = Inl OutOfRange"
proof -
  have "parse_entry e0 pageCount str = Inl OutOfRange"
    if "recognize e0 pageCount str = Inr raw" "pageCount < first raw \<or> pageCount < last' raw"
    using that by (simp add: parse_entry_def validate_def)
  then show ?thesis
    using parse_fail_at [of pageCount s pre str post e0 OutOfRange] parse_examples(1,2) [of e0]
    by blast
qed

theorem out_of_range_rejected_witness:
  "recognize \<lparr>first = 0, last' = 0\<rparr> 10 ''3-12'' = Inr \<lparr>first = 3, last' = 12\<rparr> \<and>
   (10 :: size_t) < 12 \<and>
   parse_entry \<lparr>first = 0, last' = 0\<rparr> 10 ''3-12'' = Inl OutOfRange \<and>
   tokens ''1,3-12,4'' = [''1''] @ ''3-12'' # [''4''] \<and>
   parse \<lparr>first = 0, last' = 0\<rparr> ''1,3-12,4'' 10 = Inl OutOfRange"
proof -
  let ?z = "\<lparr>first = 0, last' = 0\<rparr>"
  have r: "recognize ?z 10 ''3-12'' = Inr \<lparr>first = 3, last' = 12\<rparr>"
    by (simp add: entry_defs scan_defs)
  have lt: "(10 :: size_t) < first \<lparr>first = 3, last' = 12\<rparr> \<or> (10 :: size_t) < last' \<lparr>first = 3, last' = 12\<rparr>"
    by simp
  have t: "tokens ''1,3-12,4'' = [''1''] @ ''3-12'' # [''4'']"
    by (simp add: tokens_def is_separator_def)
  have pre: "\<forall>u\<in>set [''1'']. \<exists>e. parse_entry ?z 10 u = Inr e"
    by (simp add: entry_defs scan_defs)
  have nz: "(10 :: size_t) \<noteq> 0" by simp
  from out_of_range_rejected [of ?z 10 "''3-12''" "\<lparr>first = 3, last' = 12\<rparr>" "''1,3-12,4''" "[''1'']" "[''4'']"]
    r lt t pre nz
  show ?thesis by simp
qed

subsection \<open>C4: the empty text\<close>

text \<open>
  C4. For \<open>pageCount \<ge> 1\<close> the empty text is one empty sub-expression, which has none
  of the five shapes: \<open>parse\<close> throws the invalid-range error and does not return the
  empty sequence.
\<close>

theorem empty_input_InvalidRange:
  "pageCount \<noteq> 0 \<Longrightarrow>
   tokens [] = [[]] \<and> \<not> matches_shape [] \<and>
   parse e0 [] pageCount = Inl InvalidRange \<and> parse e0 [] pageCount \<noteq> Inr []"
  using parse_entry_InvalidRange_iff [of e0 pageCount "[]"]
  by (simp add: parse_def tokens_def parse_entry_Nil)

theorem empty_input_InvalidRange_witness:
  "(10 :: size_t) \<noteq> 0 \<and> parse \<lparr>first = 0, last' = 0\<rparr> [] 10 = Inl InvalidRange"
  using empty_input_InvalidRange [of 10 "\<lparr>first = 0, last' = 0\<rparr>"] by simp

subsection \<open>C5: a zero bound\<close>

text \<open>
  C5, as stated, fails. The claim says that a raw entry with \<open>last = 0\<close> has
  \<open>first = 0\<close>, so that every zero bound ends as the page-number error. The left-open
  sub-expression \<^verbatim>\<open>-0\<close> is accepted by the recognizer with \<open>first = 1\<close> and
  \<open>last = 0\<close>, and \<open>parse\<close> throws the ordering error for it.
\<close>

theorem zero_last_with_nonzero_first:
  "recognize \<lparr>first = 0, last' = 0\<rparr> 10 ''-0'' = Inr \<lparr>first = 1, last' = 0\<rparr> \<and>
   last' \<lparr>first = 1, last' = 0\<rparr> = 0 \<and> first \<lparr>first = 1, last' = 0\<rparr> \<noteq> 0 \<and>
   parse \<lparr>first = 0, last' = 0\<rparr> ''-0'' 10 = Inl InvalidOrder \<and>
   parse \<lparr>first = 0, last' = 0\<rparr> ''-0'' 10 \<noteq> Inl InvalidPageNumber"
  by (simp add: parse_def tokens_def is_separator_def entry_defs scan_defs exn_defs)

text \<open>
  C5, amended. A raw entry with a zero bound is always rejected: with the out-of-range
  error when a bound exceeds \<open>pageCount\<close>, else with the ordering error when
  \<open>last < first\<close>, else with the page-number error. An entry with a zero bound that
  passes the first two checks has \<open>first = 0\<close>, which is what the comment at the third
  check says.
\<close>

theorem zero_bound_rejected:
  "recognize e0 pageCount str = Inr raw \<Longrightarrow> first raw = 0 \<or> last' raw = 0 \<Longrightarrow>
   parse_entry e0 pageCount str =
     Inl (if pageCount < first raw \<or> pageCount < last' raw then OutOfRange
          else if last' raw < first raw then InvalidOrder
          else InvalidPageNumber) \<and>
   (\<not> pageCount < first raw \<and> \<not> pageCount < last' raw \<and> \<not> last' raw < first raw \<longrightarrow>
      first raw = 0)"
  by (auto simp: parse_entry_def validate_def word_greater_zero_iff)

theorem zero_bound_rejected_witness:
  "recognize \<lparr>first = 0, last' = 0\<rparr> 10 ''3-0'' = Inr \<lparr>first = 3, last' = 0\<rparr> \<and>
   parse_entry \<lparr>first = 0, last' = 0\<rparr> 10 ''3-0'' = Inl InvalidOrder \<and>
   recognize \<lparr>first = 0, last' = 0\<rparr> 10 ''0'' = Inr \<lparr>first = 0, last' = 0\<rparr> \<and>
   parse_entry \<lparr>first = 0, last' = 0\<rparr> 10 ''0'' = Inl InvalidPageNumber \<and>
   recognize \<lparr>first = 0, last' = 0\<rparr> 10 ''0-11'' = Inr \<lparr>first = 0, last' = 11\<rparr> \<and>
   parse_entry \<lparr>first = 0, last' = 0\<rparr> 10 ''0-11'' = Inl OutOfRange"
proof -
  let ?z = "\<lparr>first = 0, last' = 0\<rparr>"
  have r: "recognize ?z 10 ''3-0'' = Inr \<lparr>first = 3, last' = 0\<rparr>"
    "recognize ?z 10 ''0'' = Inr \<lparr>first = 0, last' = 0\<rparr>"
    "recognize ?z 10 ''0-11'' = Inr \<lparr>first = 0, last' = 11\<rparr>"
    by (simp_all add: entry_defs scan_defs)
  from zero_bound_rejected [OF r(1)] zero_bound_rejected [OF r(2)] zero_bound_rejected [OF r(3)] r
  show ?thesis by simp
qed

subsection \<open>C6: a page count of zero\<close>

text \<open>
  C6. With \<open>pageCount = 0\<close> the function throws \<^verbatim>\<open>std::logic_error\<close> whatever the
  text is. With \<open>pageCount \<ge> 1\<close> it never throws an object of that dynamic class: every
  exception is one of the four \<^verbatim>\<open>std::invalid_argument\<close> errors.
\<close>

theorem pageCount_zero_distinct:
  "parse e0 s 0 = Inl InvalidConfiguration \<and>
   (pageCount \<noteq> 0 \<longrightarrow>
      parse e0 s pageCount \<noteq> Inl InvalidConfiguration \<and>
      (\<forall>msg. parse e0 s pageCount \<noteq> Inl (logic_error msg)) \<and>
      (\<forall>err. parse e0 s pageCount = Inl err \<longrightarrow>
         err = InvalidRange \<or> err = OutOfRange \<or> err = InvalidOrder \<or> err = InvalidPageNumber))"
proof -
  have c: "err = InvalidRange \<or> err = OutOfRange \<or> err = InvalidOrder \<or> err = InvalidPageNumber"
    if "pageCount \<noteq> 0" "parse e0 s pageCount = Inl err" for err
    using that parse_loop_Inl [of e0 pageCount "tokens s" "[]" err]
    by (auto simp: parse_def dest: parse_entry_Inl_cases)
  then have "parse e0 s pageCount \<noteq> Inl (logic_error msg)" if "pageCount \<noteq> 0" for msg
    using that by (auto simp: exn_defs)
  with c show ?thesis
    by (auto simp: parse_def InvalidConfiguration_def)
qed

theorem pageCount_zero_distinct_witness:
  "(10 :: size_t) \<noteq> 0 \<and>
   parse \<lparr>first = 0, last' = 0\<rparr> ''abc'' 0 = Inl InvalidConfiguration \<and>
   parse \<lparr>first = 0, last' = 0\<rparr> ''abc'' 10 = Inl InvalidRange \<and>
   parse \<lparr>first = 0, last' = 0\<rparr> ''abc'' 10 \<noteq> Inl InvalidConfiguration"
  using pageCount_zero_distinct [of "\<lparr>first = 0, last' = 0\<rparr>" "''abc''" 10]
    parse_examples(8) [of "\<lparr>first = 0, last' = 0\<rparr>"]
  by simp

subsection \<open>C7: the order of the checks\<close>

text \<open>
  C7. The checks on a raw entry run in the order upper bound, ordering, zero: a bound
  above \<open>pageCount\<close> gives the out-of-range error whatever else holds; otherwise
  \<open>last < first\<close> gives the ordering error; otherwise \<open>first = 0\<close> gives the page-number
  error. The three errors differ. \<^verbatim>\<open>11-2\<close> with 10 pages is out of range, not out
  of order.
\<close>

theorem validation_order:
  "(recognize e0 pageCount str = Inr raw \<longrightarrow>
      (pageCount < first raw \<or> pageCount < last' raw \<longrightarrow>
         parse_entry e0 pageCount str = Inl OutOfRange) \<and>
      (first raw \<le> pageCount \<and> last' raw \<le> pageCount \<and> last' raw < first raw \<longrightarrow>
         parse_entry e0 pageCount str = Inl InvalidOrder) \<and>
      (first raw \<le> pageCount \<and> last' raw \<le> pageCount \<and> first raw \<le> last' raw \<and> first raw = 0 \<longrightarrow>
         parse_entry e0 pageCount str = Inl InvalidPageNumber)) \<and>
   OutOfRange \<noteq> InvalidOrder \<and> OutOfRange \<noteq> InvalidPageNumber \<and>
   InvalidOrder \<noteq> InvalidPageNumber \<and>
   parse e0 ''11-2'' 10 = Inl OutOfRange \<and>
   parse e0 ''0-11'' 10 = Inl OutOfRange \<and>
   parse e0 ''5-2'' 10 = Inl InvalidOrder \<and>
   parse e0 ''0'' 10 = Inl InvalidPageNumber"
proof -
  have "parse_entry e0 pageCount str = validate pageCount raw"
    if "recognize e0 pageCount str = Inr raw"
    using that by (simp add: parse_entry_def)
  then show ?thesis
    using exn_distinct parse_examples(3,4,5,6) [of e0]
    by (auto simp: validate_def)
qed

theorem validation_order_witness:
  "recognize \<lparr>first = 0, last' = 0\<rparr> 10 ''11-2'' = Inr \<lparr>first = 11, last' = 2\<rparr> \<and>
   (10 :: size_t) < 11 \<and> (2 :: size_t) < 11 \<and>
   parse_entry \<lparr>first = 0, last' = 0\<rparr> 10 ''11-2'' = Inl OutOfRange \<and>
   recognize \<lparr>first = 0, last' = 0\<rparr> 10 ''5-2'' = Inr \<lparr>first = 5, last' = 2\<rparr> \<and>
   (5 :: size_t) \<le> 10 \<and> (2 :: size_t) < 5 \<and>
   parse_entry \<lparr>first = 0, last' = 0\<rparr> 10 ''5-2'' = Inl InvalidOrder \<and>
   recognize \<lparr>first = 0, last' = 0\<rparr> 10 ''0-4'' = Inr \<lparr>first = 0, last' = 4\<rparr> \<and>
   (4 :: size_t) \<le> 10 \<and>
   parse_entry \<lparr>first = 0, last' = 0\<rparr> 10 ''0-4'' = Inl InvalidPageNumber"
proof -
  let ?z = "\<lparr>first = 0, last' = 0\<rparr>"
  have r: "recognize ?z 10 ''11-2'' = Inr \<lparr>first = 11, last' = 2\<rparr>"
    "recognize ?z 10 ''5-2'' = Inr \<lparr>first = 5, last' = 2\<rparr>"
    "recognize ?z 10 ''0-4'' = Inr \<lparr>first = 0, last' = 4\<rparr>"
    by (simp_all add: entry_defs scan_defs)
  from validation_order [of ?z 10 "''11-2''" "\<lparr>first = 11, last' = 2\<rparr>"]
    validation_order [of ?z 10 "''5-2''" "\<lparr>first = 5, last' = 2\<rparr>"]
    validation_order [of ?z 10 "''0-4''" "\<lparr>first = 0, last' = 4\<rparr>"] r
  show ?thesis by simp
qed

subsection \<open>C8: sub-expressions of no shape\<close>

text \<open>
  C8. The loop body throws the invalid-range error exactly for the sub-expressions whose
  whole text is in none of the five languages, and \<open>parse\<close> throws it on every text in
  which the sub-expressions before such a one are accepted. \<^verbatim>\<open>1-2-3\<close> and
  \<^verbatim>\<open>abc\<close> are rejected so.
\<close>

theorem malformed_InvalidRange:
  "(parse_entry e0 pageCount str = Inl InvalidRange \<longleftrightarrow> \<not> matches_shape str) \<and>
   (\<not> matches_shape str \<and> pageCount \<noteq> 0 \<and> tokens s = pre @ str # post \<and>
    (\<forall>u\<in>set pre. \<exists>e. parse_entry e0 pageCount u = Inr e) \<longrightarrow>
      parse e0 s pageCount = Inl InvalidRange) \<and>
   parse e0 ''1-2-3'' 10 = Inl InvalidRange \<and>
   parse e0 ''abc'' 10 = Inl InvalidRange"
  using parse_entry_InvalidRange_iff [of e0 pageCount str]
    parse_fail_at [of pageCount s pre str post e0 InvalidRange] parse_examples(7,8) [of e0]
  by blast

theorem malformed_InvalidRange_witness:
  "\<not> matches_shape ''1-2-3'' \<and> (10 :: size_t) \<noteq> 0 \<and>
   tokens ''4;1-2-3'' = [''4''] @ ''1-2-3'' # [] \<and>
   parse_entry \<lparr>first = 0, last' = 0\<rparr> 10 ''4'' = Inr \<lparr>first = 3, last' = 3\<rparr> \<and>
   parse \<lparr>first = 0, last' = 0\<rparr> ''4;1-2-3'' 10 = Inl InvalidRange"
proof -
  let ?z = "\<lparr>first = 0, last' = 0\<rparr>"
  have e: "parse_entry ?z 10 ''1-2-3'' = Inl InvalidRange"
    by (simp add: entry_defs scan_defs)
  have t: "tokens ''4;1-2-3'' = [''4''] @ ''1-2-3'' # []"
    by (simp add: tokens_def is_separator_def)
  have p: "parse_entry ?z 10 ''4'' = Inr \<lparr>first = 3, last' = 3\<rparr>"
    by (simp add: entry_defs scan_defs)
  then have pre: "\<forall>u\<in>set [''4'']. \<exists>e. parse_entry ?z 10 u = Inr e"
    by simp
  have nz: "(10 :: size_t) \<noteq> 0" by simp
  from malformed_InvalidRange [of ?z 10 "''1-2-3''" "''4;1-2-3''" "[''4'']" "[]"] e t pre nz p
  show ?thesis by simp
qed

subsection \<open>C9: numbers that do not fit\<close>

text \<open>
  C9. The claim says that an extracted bound is the decimal value of its digits. For
  \<^verbatim>\<open>18446744073709551616\<close>, which is \<open>2 ^ 64\<close>, \<^verbatim>\<open>std::from_chars\<close> reports an
  error that the parser drops, and the bound is what the fresh entry held: with zeros the
  call ends in the page-number error, with \<open>3\<close> it returns the entry \<open>(2, 2)\<close>.
  Lemma \<open>from_chars_fits\<close> gives the exact value for digits whose value is below
  \<open>2 ^ 64\<close>, and \<open>from_chars_overflow\<close> the unchanged variable for all others.
\<close>

theorem from_chars_result_unchecked:
  "dec_value ''18446744073709551616'' = 2 ^ 64 \<and>
   from_chars ''18446744073709551616'' v = v \<and>
   recognize e0 10 ''18446744073709551616'' = Inr \<lparr>first = first e0, last' = first e0\<rparr> \<and>
   parse \<lparr>first = 0, last' = 0\<rparr> ''18446744073709551616'' 10 = Inl InvalidPageNumber \<and>
   parse \<lparr>first = 3, last' = 3\<rparr> ''18446744073709551616'' 10 = Inr [\<lparr>first = 2, last' = 2\<rparr>]"
  by (simp add: parse_def tokens_def is_separator_def entry_defs scan_defs)

subsection \<open>C10: separators at the end, at the start and in a row\<close>

text \<open>
  C10. A separator at the end of a text that does not already end in one adds no
  sub-expression: the tokens and the result are those of the text without it. A
  separator at the start, or two in a row after accepted sub-expressions, give an empty
  sub-expression and the invalid-range error. \<^verbatim>\<open>1,\<close> gives \<^verbatim>\<open>[{0,0}]\<close>;
  \<^verbatim>\<open>,1\<close> and \<^verbatim>\<open>1,,2\<close> are rejected.
\<close>

theorem trailing_separator_dropped:
  "(is_separator c \<and> s \<noteq> [] \<and> \<not> is_separator (last s) \<longrightarrow>
      tokens (s @ [c]) = tokens s \<and> parse e0 (s @ [c]) pageCount = parse e0 s pageCount) \<and>
   (is_separator c \<and> pageCount \<noteq> 0 \<longrightarrow> parse e0 (c # s) pageCount = Inl InvalidRange) \<and>
   (is_separator c \<and> is_separator d \<and> pageCount \<noteq> 0 \<and>
    (\<forall>u\<in>set (tokens (s1 @ [c])). \<exists>e. parse_entry e0 pageCount u = Inr e) \<longrightarrow>
      parse e0 (s1 @ c # d # s2) pageCount = Inl InvalidRange) \<and>
   parse e0 ''1,'' 10 = Inr [\<lparr>first = 0, last' = 0\<rparr>] \<and>
   parse e0 '',1'' 10 = Inl InvalidRange \<and>
   parse e0 ''1,,2'' 10 = Inl InvalidRange"
proof -
  have a: "tokens (s @ [c]) = tokens s"
    if "is_separator c" "s \<noteq> []" "\<not> is_separator (last s)"
    using that by (simp add: tokens_def tokens_from_trailing)
  then have a': "parse e0 (s @ [c]) pageCount = parse e0 s pageCount"
    if "is_separator c" "s \<noteq> []" "\<not> is_separator (last s)"
    using that by (simp add: parse_def)
  have b: "parse e0 (c # s) pageCount = Inl InvalidRange" if "is_separator c" "pageCount \<noteq> 0"
    using that by (simp add: parse_def tokens_leading parse_entry_Nil)
  have d: "parse e0 (s1 @ c # d # s2) pageCount = Inl InvalidRange"
    if "is_separator c" "is_separator d" "pageCount \<noteq> 0"
      "\<forall>u\<in>set (tokens (s1 @ [c])). \<exists>e. parse_entry e0 pageCount u = Inr e"
    using that(3) tokens_doubled [OF that(1,2)] that(4) parse_entry_Nil
    by (rule parse_fail_at)
  from a a' b d parse_examples(9,10,11) [of e0] show ?thesis by blast
qed

theorem trailing_separator_dropped_witness:
  "is_separator CHR '','' \<and> is_separator CHR '';'' \<and> ''2-3'' \<noteq> [] \<and>
   \<not> is_separator (last ''2-3'') \<and> (10 :: size_t) \<noteq> 0 \<and>
   tokens (''2-3'' @ [CHR '','']) = [''2-3''] \<and>
   parse \<lparr>first = 0, last' = 0\<rparr> (''2-3'' @ [CHR '','']) 10 = Inr [\<lparr>first = 1, last' = 2\<rparr>] \<and>
   parse \<lparr>first = 0, last' = 0\<rparr> (CHR '','' # ''2-3'') 10 = Inl InvalidRange \<and>
   parse \<lparr>first = 0, last' = 0\<rparr> (''2-3'' @ CHR '','' # CHR '';'' # ''4'') 10 = Inl InvalidRange"
proof -
  let ?z = "\<lparr>first = 0, last' = 0\<rparr>"
  have sep: "is_separator CHR '',''" "is_separator CHR '';''" "\<not> is_separator (last ''2-3'')"
    by (simp_all add: is_separator_def)
  have t: "tokens ''2-3'' = [''2-3'']" "tokens (''2-3'' @ [CHR '','']) = [''2-3'']"
    by (simp_all add: tokens_def is_separator_def)
  have p: "parse ?z ''2-3'' 10 = Inr [\<lparr>first = 1, last' = 2\<rparr>]"
    by (simp add: parse_def tokens_def is_separator_def entry_defs scan_defs)
  have e: "parse_entry ?z 10 ''2-3'' = Inr \<lparr>first = 1, last' = 2\<rparr>"
    by (simp add: entry_defs scan_defs)
  with t have pre: "\<forall>u\<in>set (tokens (''2-3'' @ [CHR '',''])). \<exists>e. parse_entry ?z 10 u = Inr e"
    by simp
  have nz: "(10 :: size_t) \<noteq> 0" "''2-3'' \<noteq> []" by simp_all
  from trailing_separator_dropped [of "CHR '',''" "''2-3''" ?z 10 "CHR '';''" "''2-3''" "''4''"]
    sep t p pre nz
  show ?thesis by simp
qed

end
